theory Spec2Isabelle
  imports Main "HOL-Library.Word"
begin

section \<open>Data model of \<^verbatim>\<open>main/hello_world_main.c\<close>\<close>

text \<open>
  The program is three FreeRTOS tasks (generator, receiver, supervisor) that share a queue
  and a handful of global variables. Each task body is embedded as a function on the
  global state; what the host runtime returns to a call (tick count, heap statistics,
  the result of \<^verbatim>\<open>malloc\<close>, the handle of a created task) is an input of the
  iteration, so an interleaving of the tasks is a sequence of iterations.

  On the ESP32 \<^verbatim>\<open>int\<close>, \<^verbatim>\<open>size_t\<close>, \<^verbatim>\<open>UBaseType_t\<close>
  and \<^verbatim>\<open>TickType_t\<close> are 32 bits wide. Unsigned comparisons are \<open><\<close> on words,
  signed comparisons of \<^verbatim>\<open>int\<close> are \<open>\<le>s\<close>; \<^verbatim>\<open>++\<close> wraps around (on
  \<^verbatim>\<open>int\<close> C leaves the overflow undefined and the target wraps; the counters of the
  receiver and the supervisor stay far from it).
\<close>

type_synonym cint = "32 word"
type_synonym size_t = "32 word"
type_synonym tick = "32 word"
type_synonym handle = nat

datatype task = GenTask | RxTask | SupTask

text \<open>One constructor for each \<^verbatim>\<open>PRINTF\<close> of the three tasks, with its arguments.\<close>

datatype msg =
    GenEnqueued cint
  | GenDropped cint
  | GenLowStack "32 word"
  | RxMallocFail
  | RxTransmit cint
  | RxTimeout cint
  | RxWarn
  | RxSoftRecover
  | RxResetQueue
  | RxFail
  | RxLowHeap size_t size_t
  | RxFinal
  | SupStatus bool tick bool tick
  | SupGenInactive
  | SupRxInactive
  | SupMemCritical size_t
  | SupHeap size_t size_t
  | SupMinHeapCritical

text \<open>What a task does that is visible outside it: a printed line or a call of the host.\<close>

datatype event =
    Printf msg
  | EvWdtAdd task
  | EvWdtReset task
  | EvDelay task tick
  | EvQueueReset
  | EvTaskDeleteSelf task
  | EvTaskDelete handle
  | EvTaskCreate task
  | EvRestart

record queue =
  uxLength :: nat
  items :: "cint list"

text \<open>The globals of the file (a \<^verbatim>\<open>NULL\<close> handle is \<open>None\<close>), and the trace of events.\<close>

record sys =
  g_queue :: queue
  g_task_gen :: "handle option"
  g_task_rx :: "handle option"
  g_hb_gen :: tick
  g_hb_rx :: tick
  g_hb_sup :: tick
  g_flag_gen_ok :: bool
  g_flag_rx_ok :: bool
  trace :: "event list"

definition emit :: "event \<Rightarrow> sys \<Rightarrow> sys" where
  "emit ev s = s\<lparr>trace := trace s @ [ev]\<rparr>"

subsection \<open>Constants\<close>

definition QUEUE_LEN :: nat where "QUEUE_LEN = 10"
definition GEN_PERIOD_MS :: nat where "GEN_PERIOD_MS = 150"
definition RX_TIMEOUT_MS :: nat where "RX_TIMEOUT_MS = 1000"
definition SUP_PERIOD_MS :: nat where "SUP_PERIOD_MS = 1500"
definition RX_WARN_THRESHOLD :: cint where "RX_WARN_THRESHOLD = 2"
definition RX_RECOVER_SOFT :: cint where "RX_RECOVER_SOFT = 3"
definition RX_RECOVER_RESET_Q :: cint where "RX_RECOVER_RESET_Q = 4"
definition RX_FAIL_THRESHOLD :: cint where "RX_FAIL_THRESHOLD = 5"

subsection \<open>The host runtime\<close>

text \<open>
  Modelled from the spec: the FreeRTOS queue and tick counter are not part of the source
  file. The queue is the Bounded Channel of the spec: a FIFO of capacity \<open>uxLength\<close>;
  a send with no wait appends when there is room and fails on a full queue, leaving it
  as it is; a receive takes the oldest message, and on an empty queue reports the
  timeout (the call returns when the wait is over, so the iteration is taken at that
  moment); a reset discards all buffered messages. The tick counter is monotonic; the
  call returns its low 32 bits.
\<close>

definition xQueueCreate :: "nat \<Rightarrow> queue" where
  "xQueueCreate n = \<lparr>uxLength = n, items = []\<rparr>"

definition xQueueSend :: "queue \<Rightarrow> cint \<Rightarrow> bool \<times> queue" where
  "xQueueSend q v =
     (if length (items q) < uxLength q then (True, q\<lparr>items := items q @ [v]\<rparr>)
      else (False, q))"

definition xQueueReceive :: "queue \<Rightarrow> cint option \<times> queue" where
  "xQueueReceive q =
     (case items q of
        [] \<Rightarrow> (None, q)
      | v # vs \<Rightarrow> (Some v, q\<lparr>items := vs\<rparr>))"

definition xQueueReset :: "queue \<Rightarrow> queue" where
  "xQueueReset q = q\<lparr>items := []\<rparr>"

definition xTaskGetTickCount :: "nat \<Rightarrow> tick" where
  "xTaskGetTickCount clk = of_nat clk"

text \<open>
  Modelled from the spec: task creation belongs to the Host Runtime and can fail (the
  boot sequence provides for it). What \<^verbatim>\<open>xTaskCreatePinnedToCore(..., &h, 1)\<close>
  stores through its pointer argument is the host's answer, an input of the tick: the
  new handle, or \<open>None\<close> for a failed creation, which leaves the variable as it is.
  The supervisor ignores the return value.
\<close>

definition xTaskCreatePinnedToCore :: "handle option \<Rightarrow> handle option \<Rightarrow> handle option" where
  "xTaskCreatePinnedToCore created pxCreatedTask =
     (case created of Some h \<Rightarrow> Some h | None \<Rightarrow> pxCreatedTask)"

text \<open>
  The macro \<^verbatim>\<open>pdMS_TO_TICKS\<close> depends on the tick rate of the build, which the
  source file does not fix: every task function takes it as its first parameter.
\<close>

type_synonym ms_to_ticks = "nat \<Rightarrow> tick"

section \<open>Module 1: \<^verbatim>\<open>task_generator\<close>\<close>

record gen_env =
  gen_clk :: nat
  gen_watermark :: "32 word"

text \<open>One pass through the body of the \<^verbatim>\<open>for (;;)\<close> loop (lines 80 to 99).\<close>

definition task_generator_body ::
  "ms_to_ticks \<Rightarrow> gen_env \<Rightarrow> sys \<times> cint \<Rightarrow> sys \<times> cint" where
  "task_generator_body pdMS_TO_TICKS e st =
     (case st of (s, val) \<Rightarrow>
        (case xQueueSend (g_queue s) val of (ok, q') \<Rightarrow>
           let s1 = (if ok
                     then emit (Printf (GenEnqueued val))
                            (s\<lparr>g_queue := q',
                               g_hb_gen := xTaskGetTickCount (gen_clk e),
                               g_flag_gen_ok := True\<rparr>)
                     else emit (Printf (GenDropped val)) (s\<lparr>g_queue := q'\<rparr>));
               val' = val + 1;
               s2 = (if gen_watermark e < 100
                     then emit (Printf (GenLowStack (gen_watermark e))) s1
                     else s1);
               s3 = emit (EvWdtReset GenTask) s2;
               s4 = emit (EvDelay GenTask (pdMS_TO_TICKS GEN_PERIOD_MS)) s3
           in (s4, val')))"

text \<open>
  The loop never ends by itself: the list holds the host's answers for the iterations
  that have run so far, and the result is the state reached after them.
\<close>

fun task_generator_loop ::
  "ms_to_ticks \<Rightarrow> gen_env list \<Rightarrow> sys \<times> cint \<Rightarrow> sys \<times> cint" where
  "task_generator_loop pdMS_TO_TICKS [] st = st"
| "task_generator_loop pdMS_TO_TICKS (e # es) st =
     task_generator_loop pdMS_TO_TICKS es (task_generator_body pdMS_TO_TICKS e st)"

definition task_generator :: "ms_to_ticks \<Rightarrow> gen_env list \<Rightarrow> sys \<Rightarrow> sys \<times> cint" where
  "task_generator pdMS_TO_TICKS es s =
     task_generator_loop pdMS_TO_TICKS es (emit (EvWdtAdd GenTask) s, 0)"

section \<open>Module 2: \<^verbatim>\<open>task_receiver\<close>\<close>

record rx_env =
  rx_clk :: nat
  rx_malloc_ok :: bool
  rx_free_heap :: size_t
  rx_min_heap :: size_t

datatype 'a flow = Next 'a | Break 'a

text \<open>Lines 154 to 164: heap telemetry, watchdog check-in and the short delay.\<close>

definition rx_telemetry :: "ms_to_ticks \<Rightarrow> rx_env \<Rightarrow> sys \<Rightarrow> sys" where
  "rx_telemetry pdMS_TO_TICKS e s =
     (let s1 = (if rx_free_heap e < 20 * 1024
                then emit (Printf (RxLowHeap (rx_free_heap e) (rx_min_heap e))) s
                else s);
          s2 = emit (EvWdtReset RxTask) s1
      in emit (EvDelay RxTask (pdMS_TO_TICKS 50)) s2)"

text \<open>One pass through the body of the loop (lines 113 to 164); \<open>Break\<close> leaves the loop.\<close>

definition task_receiver_body ::
  "ms_to_ticks \<Rightarrow> rx_env \<Rightarrow> sys \<times> cint \<Rightarrow> (sys \<times> cint) flow" where
  "task_receiver_body pdMS_TO_TICKS e st =
     (case st of (s, timeouts) \<Rightarrow>
        (case xQueueReceive (g_queue s) of
           (Some rx_val, q') \<Rightarrow>
             let s1 = s\<lparr>g_queue := q',
                        g_hb_rx := xTaskGetTickCount (rx_clk e),
                        g_flag_rx_ok := True\<rparr>
             in if \<not> rx_malloc_ok e
                then Break ((emit (Printf RxMallocFail) s1)\<lparr>g_flag_rx_ok := False\<rparr>, 0)
                else Next (rx_telemetry pdMS_TO_TICKS e (emit (Printf (RxTransmit rx_val)) s1), 0)
         | (None, q') \<Rightarrow>
             let timeouts' = timeouts + 1;
                 s1 = emit (Printf (RxTimeout timeouts')) (s\<lparr>g_queue := q'\<rparr>)
             in if timeouts' = RX_WARN_THRESHOLD
                then Next (rx_telemetry pdMS_TO_TICKS e (emit (Printf RxWarn) s1), timeouts')
                else if timeouts' = RX_RECOVER_SOFT
                then Next (rx_telemetry pdMS_TO_TICKS e (emit (Printf RxSoftRecover) s1), timeouts')
                else if timeouts' = RX_RECOVER_RESET_Q
                then let s2 = emit (Printf RxResetQueue) s1;
                         s3 = emit EvQueueReset (s2\<lparr>g_queue := xQueueReset (g_queue s2)\<rparr>)
                     in Next (rx_telemetry pdMS_TO_TICKS e s3, timeouts')
                else if RX_FAIL_THRESHOLD \<le>s timeouts'
                then Break ((emit (Printf RxFail) s1)\<lparr>g_flag_rx_ok := False\<rparr>, timeouts')
                else Next (rx_telemetry pdMS_TO_TICKS e s1, timeouts')))"

fun task_receiver_loop ::
  "ms_to_ticks \<Rightarrow> rx_env list \<Rightarrow> sys \<times> cint \<Rightarrow> (sys \<times> cint) flow" where
  "task_receiver_loop pdMS_TO_TICKS [] st = Next st"
| "task_receiver_loop pdMS_TO_TICKS (e # es) st =
     (case task_receiver_body pdMS_TO_TICKS e st of
        Break st' \<Rightarrow> Break st'
      | Next st' \<Rightarrow> task_receiver_loop pdMS_TO_TICKS es st')"

text \<open>
  The whole task: \<open>Running\<close> while the loop goes on (the inputs are used up), \<open>Exited\<close>
  once the loop was left and lines 167 and 168 have run. \<^verbatim>\<open>vTaskDelete(NULL)\<close>
  deletes the calling task; it is not given, and does not write, \<^verbatim>\<open>g_task_rx\<close>.
\<close>

datatype 'a run = Running 'a | Exited sys

definition task_receiver_exit :: "sys \<Rightarrow> sys" where
  "task_receiver_exit s = emit (EvTaskDeleteSelf RxTask) (emit (Printf RxFinal) s)"

definition task_receiver_from ::
  "ms_to_ticks \<Rightarrow> rx_env list \<Rightarrow> sys \<times> cint \<Rightarrow> (sys \<times> cint) run" where
  "task_receiver_from pdMS_TO_TICKS es st =
     (case task_receiver_loop pdMS_TO_TICKS es st of
        Next st' \<Rightarrow> Running st'
      | Break st' \<Rightarrow> Exited (task_receiver_exit (fst st')))"

definition task_receiver :: "ms_to_ticks \<Rightarrow> rx_env list \<Rightarrow> sys \<Rightarrow> (sys \<times> cint) run" where
  "task_receiver pdMS_TO_TICKS es s =
     task_receiver_from pdMS_TO_TICKS es (emit (EvWdtAdd RxTask) s, 0)"

section \<open>Module 3: \<^verbatim>\<open>task_supervisor\<close>\<close>

text \<open>
  The host's answers during one supervisor tick, in the order of the calls: the tick
  count of line 183, the generator's creation and the tick count of line 202, the
  receiver's creation and the tick count of line 216, the free heap of line 221, the
  free heap and the minimum-ever free heap of lines 231 and 232.
\<close>

record sup_env =
  sup_clk_now :: nat
  sup_gen_created :: "handle option"
  sup_clk_gen :: nat
  sup_rx_created :: "handle option"
  sup_clk_rx :: nat
  sup_free_heap_esc :: size_t
  sup_free_heap :: size_t
  sup_min_heap :: size_t

text \<open>\<^verbatim>\<open>esp_restart()\<close> does not return: the tick ends there.\<close>

datatype 'a outcome = Proceed 'a | Restarted 'a

text \<open>Lines 193 to 204.\<close>

definition sup_check_gen :: "ms_to_ticks \<Rightarrow> sup_env \<Rightarrow> tick \<Rightarrow> sys \<Rightarrow> sys" where
  "sup_check_gen pdMS_TO_TICKS e now s =
     (if pdMS_TO_TICKS (3 * SUP_PERIOD_MS) < now - g_hb_gen s
      then let s1 = emit (Printf SupGenInactive) s;
               s2 = (case g_task_gen s1 of
                       Some h \<Rightarrow> (emit (EvTaskDelete h) s1)\<lparr>g_task_gen := None\<rparr>
                     | None \<Rightarrow> s1);
               s3 = (emit (EvTaskCreate GenTask) s2)
                      \<lparr>g_task_gen := xTaskCreatePinnedToCore (sup_gen_created e) (g_task_gen s2)\<rparr>
           in s3\<lparr>g_hb_gen := xTaskGetTickCount (sup_clk_gen e), g_flag_gen_ok := False\<rparr>
      else s)"

text \<open>Lines 206 to 228.\<close>

definition sup_check_rx ::
  "ms_to_ticks \<Rightarrow> sup_env \<Rightarrow> tick \<Rightarrow> sys \<times> cint \<Rightarrow> (sys \<times> cint) outcome" where
  "sup_check_rx pdMS_TO_TICKS e now st =
     (case st of (s, rx_restarts) \<Rightarrow>
        if g_task_rx s = None \<or> pdMS_TO_TICKS (5 * SUP_PERIOD_MS) < now - g_hb_rx s
        then let s1 = emit (Printf SupRxInactive) s;
                 s2 = (case g_task_rx s1 of
                         Some h \<Rightarrow> (emit (EvTaskDelete h) s1)\<lparr>g_task_rx := None\<rparr>
                       | None \<Rightarrow> s1);
                 s3 = (emit (EvTaskCreate RxTask) s2)
                        \<lparr>g_task_rx := xTaskCreatePinnedToCore (sup_rx_created e) (g_task_rx s2)\<rparr>;
                 rx_restarts' = rx_restarts + 1;
                 s4 = s3\<lparr>g_hb_rx := xTaskGetTickCount (sup_clk_rx e), g_flag_rx_ok := False\<rparr>
             in if 3 \<le>s rx_restarts'
                then (if sup_free_heap_esc e < 16 * 1024
                      then Restarted
                             (emit EvRestart (emit (Printf (SupMemCritical (sup_free_heap_esc e))) s4),
                              rx_restarts')
                      else Proceed (s4, rx_restarts'))
                else Proceed (s4, rx_restarts')
        else Proceed (s, rx_restarts))"

text \<open>Lines 230 to 240.\<close>

definition sup_heap_telemetry :: "sup_env \<Rightarrow> sys \<times> cint \<Rightarrow> (sys \<times> cint) outcome" where
  "sup_heap_telemetry e st =
     (case st of (s, rx_restarts) \<Rightarrow>
        let s1 = emit (Printf (SupHeap (sup_free_heap e) (sup_min_heap e))) s
        in if sup_min_heap e < 8 * 1024
           then Restarted (emit EvRestart (emit (Printf SupMinHeapCritical) s1), rx_restarts)
           else Proceed (emit (EvWdtReset SupTask) s1, rx_restarts))"

text \<open>One pass through the body of the supervisor's loop (lines 182 to 240).\<close>

definition task_supervisor_body ::
  "ms_to_ticks \<Rightarrow> sup_env \<Rightarrow> sys \<times> cint \<Rightarrow> (sys \<times> cint) outcome" where
  "task_supervisor_body pdMS_TO_TICKS e st =
     (case st of (s, rx_restarts) \<Rightarrow>
        let s0 = emit (EvDelay SupTask (pdMS_TO_TICKS SUP_PERIOD_MS)) s;
            now = xTaskGetTickCount (sup_clk_now e);
            s1 = s0\<lparr>g_hb_sup := now\<rparr>;
            s2 = emit (Printf (SupStatus (g_flag_gen_ok s1) (g_hb_gen s1)
                                         (g_flag_rx_ok s1) (g_hb_rx s1))) s1;
            s3 = sup_check_gen pdMS_TO_TICKS e now s2
        in (case sup_check_rx pdMS_TO_TICKS e now (s3, rx_restarts) of
              Restarted st' \<Rightarrow> Restarted st'
            | Proceed st' \<Rightarrow> sup_heap_telemetry e st'))"

fun task_supervisor_loop ::
  "ms_to_ticks \<Rightarrow> sup_env list \<Rightarrow> sys \<times> cint \<Rightarrow> (sys \<times> cint) outcome" where
  "task_supervisor_loop pdMS_TO_TICKS [] st = Proceed st"
| "task_supervisor_loop pdMS_TO_TICKS (e # es) st =
     (case task_supervisor_body pdMS_TO_TICKS e st of
        Restarted st' \<Rightarrow> Restarted st'
      | Proceed st' \<Rightarrow> task_supervisor_loop pdMS_TO_TICKS es st')"

definition task_supervisor ::
  "ms_to_ticks \<Rightarrow> sup_env list \<Rightarrow> sys \<Rightarrow> (sys \<times> cint) outcome" where
  "task_supervisor pdMS_TO_TICKS es s =
     task_supervisor_loop pdMS_TO_TICKS es (emit (EvWdtAdd SupTask) s, 0)"

section \<open>Observers and a concrete configuration\<close>

fun flow_state :: "'a flow \<Rightarrow> 'a" where
  "flow_state (Next a) = a"
| "flow_state (Break a) = a"

fun outcome_state :: "'a outcome \<Rightarrow> 'a" where
  "outcome_state (Proceed a) = a"
| "outcome_state (Restarted a) = a"

fun is_Restarted :: "'a outcome \<Rightarrow> bool" where
  "is_Restarted (Restarted a) = True"
| "is_Restarted (Proceed a) = False"

text \<open>
  The globals as \<^verbatim>\<open>app_main\<close> leaves them when every creation succeeds: the queue
  of \<^verbatim>\<open>QUEUE_LEN\<close> slots, the generator and the receiver under handles 1 and 2,
  heartbeats 0 and health flags false.
\<close>

definition booted :: sys where
  "booted = \<lparr>g_queue = xQueueCreate QUEUE_LEN, g_task_gen = Some 1, g_task_rx = Some 2,
              g_hb_gen = 0, g_hb_rx = 0, g_hb_sup = 0,
              g_flag_gen_ok = False, g_flag_rx_ok = False, trace = []\<rparr>"

text \<open>The tick rate of the ESP-IDF default configuration, 100 Hz: 10 ms to the tick.\<close>

definition ticks_100hz :: ms_to_ticks where
  "ticks_100hz ms = of_nat (ms * 100 div 1000)"


text \<open>
  The escalation ladder of the receiver as it shows in the trace: the timeout line with
  its count, the lines of the four thresholds, the call of \<^verbatim>\<open>xQueueReset\<close> and
  the task's deletion of itself.
\<close>

fun is_ladder :: "event \<Rightarrow> bool" where
  "is_ladder (Printf (RxTimeout n)) = True"
| "is_ladder (Printf RxWarn) = True"
| "is_ladder (Printf RxSoftRecover) = True"
| "is_ladder (Printf RxResetQueue) = True"
| "is_ladder (Printf RxFail) = True"
| "is_ladder EvQueueReset = True"
| "is_ladder (EvTaskDeleteSelf t) = True"
| "is_ladder ev = False"

definition ladder :: "event list \<Rightarrow> event list" where
  "ladder evs = filter is_ladder evs"

text \<open>The generator's send attempts as they show in the trace.\<close>

fun is_send :: "event \<Rightarrow> bool" where
  "is_send (Printf (GenEnqueued v)) = True"
| "is_send (Printf (GenDropped v)) = True"
| "is_send ev = False"

definition sends :: "event list \<Rightarrow> event list" where
  "sends evs = filter is_send evs"

text \<open>
  Host answers used in the examples: a receiver iteration at a given clock with plenty
  of heap, a generator iteration at a given clock with plenty of stack, and a supervisor
  tick at a given clock and heap readings at which both creations succeed (handles 3
  and 4) within the same tick count.
\<close>

definition rx_at :: "nat \<Rightarrow> rx_env" where
  "rx_at clk = \<lparr>rx_clk = clk, rx_malloc_ok = True, rx_free_heap = 200000, rx_min_heap = 190000\<rparr>"

definition gen_at :: "nat \<Rightarrow> gen_env" where
  "gen_at clk = \<lparr>gen_clk = clk, gen_watermark = 3000\<rparr>"

definition sup_at :: "nat \<Rightarrow> size_t \<Rightarrow> size_t \<Rightarrow> sup_env" where
  "sup_at clk free_heap min_heap =
     \<lparr>sup_clk_now = clk, sup_gen_created = Some 3, sup_clk_gen = clk,
      sup_rx_created = Some 4, sup_clk_rx = clk,
      sup_free_heap_esc = free_heap, sup_free_heap = free_heap, sup_min_heap = min_heap\<rparr>"

text \<open>
  A generator that runs 41 cycles from boot, one every 150 ms (15 ticks), the last at
  clock 600, while nothing takes messages from the queue.
\<close>

definition producer_blocked_run :: "sys \<times> cint" where
  "producer_blocked_run =
     task_generator ticks_100hz (map gen_at (map ((*) 15) [0..<41])) booted"

section \<open>Basic facts\<close>

lemmas config_defs =
  QUEUE_LEN_def GEN_PERIOD_MS_def RX_TIMEOUT_MS_def SUP_PERIOD_MS_def
  RX_WARN_THRESHOLD_def RX_RECOVER_SOFT_def RX_RECOVER_RESET_Q_def RX_FAIL_THRESHOLD_def

lemma emit_fields [simp]:
  "g_queue (emit ev s) = g_queue s"
  "g_task_gen (emit ev s) = g_task_gen s"
  "g_task_rx (emit ev s) = g_task_rx s"
  "g_hb_gen (emit ev s) = g_hb_gen s"
  "g_hb_rx (emit ev s) = g_hb_rx s"
  "g_hb_sup (emit ev s) = g_hb_sup s"
  "g_flag_gen_ok (emit ev s) = g_flag_gen_ok s"
  "g_flag_rx_ok (emit ev s) = g_flag_rx_ok s"
  "trace (emit ev s) = trace s @ [ev]"
  by (simp_all add: emit_def)

lemma sends_simps [simp]:
  "sends [] = []"
  "sends (ev # evs) = (if is_send ev then ev # sends evs else sends evs)"
  "sends (xs @ ys) = sends xs @ sends ys"
  by (simp_all add: sends_def)

lemma ladder_simps [simp]:
  "ladder [] = []"
  "ladder (ev # evs) = (if is_ladder ev then ev # ladder evs else ladder evs)"
  "ladder (xs @ ys) = ladder xs @ ladder ys"
  by (simp_all add: ladder_def)

section \<open>The receiver\<close>

lemma rx_telemetry_fields [simp]:
  "g_queue (rx_telemetry p e s) = g_queue s"
  "g_task_gen (rx_telemetry p e s) = g_task_gen s"
  "g_task_rx (rx_telemetry p e s) = g_task_rx s"
  "g_hb_gen (rx_telemetry p e s) = g_hb_gen s"
  "g_hb_rx (rx_telemetry p e s) = g_hb_rx s"
  "g_flag_gen_ok (rx_telemetry p e s) = g_flag_gen_ok s"
  "g_flag_rx_ok (rx_telemetry p e s) = g_flag_rx_ok s"
  by (simp_all add: rx_telemetry_def Let_def)

lemma rx_telemetry_ladder [simp]:
  "ladder (trace (rx_telemetry p e s)) = ladder (trace s)"
  by (simp add: rx_telemetry_def Let_def)

text \<open>The timeout branch of the body, with the constants written out.\<close>

lemma rx_body_timeout:
  assumes "items (g_queue s) = []"
  shows "task_receiver_body p e (s, t) =
     (let s1 = emit (Printf (RxTimeout (t + 1))) s in
      if t + 1 = 2 then Next (rx_telemetry p e (emit (Printf RxWarn) s1), t + 1)
      else if t + 1 = 3 then Next (rx_telemetry p e (emit (Printf RxSoftRecover) s1), t + 1)
      else if t + 1 = 4
      then Next (rx_telemetry p e
                   (emit EvQueueReset
                      ((emit (Printf RxResetQueue) s1)\<lparr>g_queue := xQueueReset (g_queue s)\<rparr>)),
                 t + 1)
      else if 5 \<le>s t + 1 then Break ((emit (Printf RxFail) s1)\<lparr>g_flag_rx_ok := False\<rparr>, t + 1)
      else Next (rx_telemetry p e s1, t + 1))"
  using assms
  by (simp add: task_receiver_body_def xQueueReceive_def Let_def config_defs)

lemma rx_step1:
  assumes "items (g_queue s) = []"
  shows "\<exists>s'. task_receiver_body p e (s, 0) = Next (s', 1) \<and> items (g_queue s') = []
     \<and> ladder (trace s') = ladder (trace s) @ [Printf (RxTimeout 1)]"
  using assms by (simp add: rx_body_timeout word_sle_eq Let_def)

lemma rx_step2:
  assumes "items (g_queue s) = []"
  shows "\<exists>s'. task_receiver_body p e (s, 1) = Next (s', 2) \<and> items (g_queue s') = []
     \<and> ladder (trace s') = ladder (trace s) @ [Printf (RxTimeout 2), Printf RxWarn]"
  using assms by (simp add: rx_body_timeout Let_def)

lemma rx_step3:
  assumes "items (g_queue s) = []"
  shows "\<exists>s'. task_receiver_body p e (s, 2) = Next (s', 3) \<and> items (g_queue s') = []
     \<and> ladder (trace s') = ladder (trace s) @ [Printf (RxTimeout 3), Printf RxSoftRecover]"
  using assms by (simp add: rx_body_timeout Let_def)

lemma rx_step4:
  assumes "items (g_queue s) = []"
  shows "\<exists>s'. task_receiver_body p e (s, 3) = Next (s', 4) \<and> items (g_queue s') = []
     \<and> ladder (trace s') =
         ladder (trace s) @ [Printf (RxTimeout 4), Printf RxResetQueue, EvQueueReset]"
  using assms by (simp add: rx_body_timeout xQueueReset_def Let_def)

lemma rx_step5:
  assumes "items (g_queue s) = []"
  shows "\<exists>s'. task_receiver_body p e (s, 4) = Break (s', 5)
     \<and> ladder (trace s') = ladder (trace s) @ [Printf (RxTimeout 5), Printf RxFail]
     \<and> \<not> g_flag_rx_ok s'"
  using assms by (simp add: rx_body_timeout Let_def)

text \<open>
  C1. A receiver whose timeout count is 0 and whose next five receives all time out
  (the queue is empty and nothing is sent) is still running after the fourth, with count
  4, and has exited after the fifth. Its trace then shows, in this order and once each:
  the warning after the timeout counted 2, the soft recovery after the one counted 3,
  the queue reset (line and call of \<^verbatim>\<open>xQueueReset\<close>) after the one counted 4, and the
  failure line and the task's deletion after the one counted 5; the health flag is false.
\<close>

theorem rx_five_timeouts_ladder:
  assumes "items (g_queue s) = []"
  shows "\<exists>s4 s5.
     task_receiver_from p [e1, e2, e3, e4] (s, 0) = Running (s4, 4) \<and>
     task_receiver_from p [e1, e2, e3, e4, e5] (s, 0) = Exited s5 \<and>
     ladder (trace s5) = ladder (trace s) @
       [Printf (RxTimeout 1),
        Printf (RxTimeout 2), Printf RxWarn,
        Printf (RxTimeout 3), Printf RxSoftRecover,
        Printf (RxTimeout 4), Printf RxResetQueue, EvQueueReset,
        Printf (RxTimeout 5), Printf RxFail, EvTaskDeleteSelf RxTask] \<and>
     g_flag_rx_ok s5 = False"
proof -
  from rx_step1 [OF assms] obtain s1 where
    b1: "task_receiver_body p e1 (s, 0) = Next (s1, 1)" and q1: "items (g_queue s1) = []"
    and l1: "ladder (trace s1) = ladder (trace s) @ [Printf (RxTimeout 1)]"
    by blast
  from rx_step2 [OF q1] obtain s2 where
    b2: "task_receiver_body p e2 (s1, 1) = Next (s2, 2)" and q2: "items (g_queue s2) = []"
    and l2: "ladder (trace s2) = ladder (trace s1) @ [Printf (RxTimeout 2), Printf RxWarn]"
    by blast
  from rx_step3 [OF q2] obtain s3 where
    b3: "task_receiver_body p e3 (s2, 2) = Next (s3, 3)" and q3: "items (g_queue s3) = []"
    and l3: "ladder (trace s3) = ladder (trace s2) @ [Printf (RxTimeout 3), Printf RxSoftRecover]"
    by blast
  from rx_step4 [OF q3] obtain s4 where
    b4: "task_receiver_body p e4 (s3, 3) = Next (s4, 4)" and q4: "items (g_queue s4) = []"
    and l4: "ladder (trace s4) =
      ladder (trace s3) @ [Printf (RxTimeout 4), Printf RxResetQueue, EvQueueReset]"
    by blast
  from rx_step5 [OF q4] obtain s5 where
    b5: "task_receiver_body p e5 (s4, 4) = Break (s5, 5)"
    and l5: "ladder (trace s5) = ladder (trace s4) @ [Printf (RxTimeout 5), Printf RxFail]"
    and f5: "\<not> g_flag_rx_ok s5"
    by blast
  have r4: "task_receiver_from p [e1, e2, e3, e4] (s, 0) = Running (s4, 4)"
    by (simp add: task_receiver_from_def b1 b2 b3 b4)
  have r5: "task_receiver_from p [e1, e2, e3, e4, e5] (s, 0) = Exited (task_receiver_exit s5)"
    by (simp add: task_receiver_from_def b1 b2 b3 b4 b5)
  have l: "ladder (trace (task_receiver_exit s5)) = ladder (trace s) @
       [Printf (RxTimeout 1),
        Printf (RxTimeout 2), Printf RxWarn,
        Printf (RxTimeout 3), Printf RxSoftRecover,
        Printf (RxTimeout 4), Printf RxResetQueue, EvQueueReset,
        Printf (RxTimeout 5), Printf RxFail, EvTaskDeleteSelf RxTask]"
    by (simp add: task_receiver_exit_def l1 l2 l3 l4 l5)
  have f: "g_flag_rx_ok (task_receiver_exit s5) = False"
    using f5 by (simp add: task_receiver_exit_def)
  from r4 r5 l f show ?thesis by blast
qed

theorem rx_five_timeouts_ladder_witness:
  "items (g_queue booted) = [] \<and>
   (\<exists>s4 s5.
      task_receiver_from ticks_100hz
        [rx_at 100, rx_at 205, rx_at 310, rx_at 415]
        (booted, 0) = Running (s4, 4) \<and>
      task_receiver_from ticks_100hz
        [rx_at 100, rx_at 205, rx_at 310, rx_at 415, rx_at 520]
        (booted, 0) = Exited s5 \<and>
      ladder (trace s5) = ladder (trace booted) @
        [Printf (RxTimeout 1),
         Printf (RxTimeout 2), Printf RxWarn,
         Printf (RxTimeout 3), Printf RxSoftRecover,
         Printf (RxTimeout 4), Printf RxResetQueue, EvQueueReset,
         Printf (RxTimeout 5), Printf RxFail, EvTaskDeleteSelf RxTask] \<and>
      g_flag_rx_ok s5 = False)"
proof -
  have h: "items (g_queue booted) = []"
    by (simp add: booted_def xQueueCreate_def)
  from h rx_five_timeouts_ladder [OF h] show ?thesis
    by (rule conjI)
qed

text \<open>
  C5. After an iteration whose receive succeeds (the queue holds a message), the timeout
  count is 0, whatever it was before and whether or not the allocation then succeeds.
\<close>

theorem rx_success_resets_timeouts:
  "items (g_queue s) = v # vs \<Longrightarrow>
   snd (flow_state (task_receiver_body p e (s, timeouts))) = 0"
  by (simp add: task_receiver_body_def xQueueReceive_def Let_def)

theorem rx_success_resets_timeouts_witness:
  "items (g_queue (booted\<lparr>g_queue := \<lparr>uxLength = 10, items = [7, 8]\<rparr>\<rparr>)) = [7, 8] \<and>
   snd (flow_state (task_receiver_body ticks_100hz (rx_at 100)
        (booted\<lparr>g_queue := \<lparr>uxLength = 10, items = [7, 8]\<rparr>\<rparr>, 4))) = 0"
proof -
  have h: "items (g_queue (booted\<lparr>g_queue := \<lparr>uxLength = 10, items = [7, 8]\<rparr>\<rparr>)) = [7, 8]"
    by simp
  from h rx_success_resets_timeouts [OF h] show ?thesis
    by (rule conjI)
qed

text \<open>
  C9. When a message was received and \<^verbatim>\<open>malloc\<close> returns \<^verbatim>\<open>NULL\<close>, the iteration
  leaves the loop with the health flag false. All it adds to the trace is the line of
  the failed allocation; the task then prints its last line and deletes itself. So the
  iteration reaches neither the timeout thresholds nor \<^verbatim>\<open>esp_task_wdt_reset\<close>.
\<close>

theorem rx_malloc_failure_exits:
  assumes "items (g_queue s) = v # vs" and "\<not> rx_malloc_ok e"
  shows "task_receiver_body p e (s, timeouts) =
           Break (s\<lparr>g_queue := (g_queue s)\<lparr>items := vs\<rparr>,
                    g_hb_rx := xTaskGetTickCount (rx_clk e),
                    g_flag_rx_ok := False,
                    trace := trace s @ [Printf RxMallocFail]\<rparr>, 0) \<and>
         task_receiver_from p (e # es) (s, timeouts) =
           Exited (s\<lparr>g_queue := (g_queue s)\<lparr>items := vs\<rparr>,
                     g_hb_rx := xTaskGetTickCount (rx_clk e),
                     g_flag_rx_ok := False,
                     trace := trace s @
                       [Printf RxMallocFail, Printf RxFinal, EvTaskDeleteSelf RxTask]\<rparr>)"
proof -
  have b: "task_receiver_body p e (s, timeouts) =
           Break (s\<lparr>g_queue := (g_queue s)\<lparr>items := vs\<rparr>,
                    g_hb_rx := xTaskGetTickCount (rx_clk e),
                    g_flag_rx_ok := False,
                    trace := trace s @ [Printf RxMallocFail]\<rparr>, 0)"
    using assms by (simp add: task_receiver_body_def xQueueReceive_def Let_def emit_def)
  then show ?thesis
    by (simp add: task_receiver_from_def task_receiver_exit_def emit_def)
qed

theorem rx_malloc_failure_exits_witness:
  "items (g_queue (booted\<lparr>g_queue := \<lparr>uxLength = 10, items = [7, 8]\<rparr>\<rparr>)) = [7, 8] \<and>
   \<not> rx_malloc_ok \<lparr>rx_clk = 100, rx_malloc_ok = False, rx_free_heap = 64, rx_min_heap = 16\<rparr> \<and>
   task_receiver_body ticks_100hz
     \<lparr>rx_clk = 100, rx_malloc_ok = False, rx_free_heap = 64, rx_min_heap = 16\<rparr>
     (booted\<lparr>g_queue := \<lparr>uxLength = 10, items = [7, 8]\<rparr>\<rparr>, 1) =
     Break (\<lparr>g_queue = \<lparr>uxLength = 10, items = [8]\<rparr>, g_task_gen = Some 1, g_task_rx = Some 2,
             g_hb_gen = 0, g_hb_rx = 100, g_hb_sup = 0,
             g_flag_gen_ok = False, g_flag_rx_ok = False,
             trace = [Printf RxMallocFail]\<rparr>, 0) \<and>
   task_receiver_from ticks_100hz
     [\<lparr>rx_clk = 100, rx_malloc_ok = False, rx_free_heap = 64, rx_min_heap = 16\<rparr>]
     (booted\<lparr>g_queue := \<lparr>uxLength = 10, items = [7, 8]\<rparr>\<rparr>, 1) =
     Exited \<lparr>g_queue = \<lparr>uxLength = 10, items = [8]\<rparr>, g_task_gen = Some 1, g_task_rx = Some 2,
             g_hb_gen = 0, g_hb_rx = 100, g_hb_sup = 0,
             g_flag_gen_ok = False, g_flag_rx_ok = False,
             trace = [Printf RxMallocFail, Printf RxFinal, EvTaskDeleteSelf RxTask]\<rparr>"
proof -
  have h1: "items (g_queue (booted\<lparr>g_queue := \<lparr>uxLength = 10, items = [7, 8]\<rparr>\<rparr>)) = [7, 8]"
    by simp
  have h2: "\<not> rx_malloc_ok
     \<lparr>rx_clk = 100, rx_malloc_ok = False, rx_free_heap = 64, rx_min_heap = 16\<rparr>"
    by simp
  from h1 h2 rx_malloc_failure_exits [OF h1 h2, of ticks_100hz 1 "[]"] show ?thesis
    by (simp add: booted_def xTaskGetTickCount_def)
qed

text \<open>
  C10. An iteration whose receive times out leaves the count one higher than it found
  it, at every count: neither the queue reset nor any other rung of the ladder writes
  the counter. The fourth timeout resets the queue and leaves the count at 4; if the
  next receive times out too, the count is 5, the health flag is set false and the task
  exits.
\<close>

theorem rx_queue_reset_keeps_count:
  assumes "items (g_queue s) = []"
  shows "snd (flow_state (task_receiver_body p e (s, t))) = t + 1 \<and>
     (\<exists>s'. task_receiver_body p e (s, 3) = Next (s', 4) \<and>
        items (g_queue s') = [] \<and>
        ladder (trace s') =
          ladder (trace s) @ [Printf (RxTimeout 4), Printf RxResetQueue, EvQueueReset] \<and>
        (\<exists>s''. task_receiver_body p e' (s', 4) = Break (s'', 5) \<and>
           task_receiver_from p [e'] (s', 4) = Exited (task_receiver_exit s'') \<and>
           ladder (trace s'') = ladder (trace s') @ [Printf (RxTimeout 5), Printf RxFail] \<and>
           \<not> g_flag_rx_ok (task_receiver_exit s'')))"
proof -
  have inc: "snd (flow_state (task_receiver_body p e (s, t))) = t + 1"
    by (simp add: rx_body_timeout [OF assms] Let_def)
  from rx_step4 [OF assms] obtain s' where
    b4: "task_receiver_body p e (s, 3) = Next (s', 4)" and q4: "items (g_queue s') = []"
    and l4: "ladder (trace s') =
      ladder (trace s) @ [Printf (RxTimeout 4), Printf RxResetQueue, EvQueueReset]"
    by blast
  from rx_step5 [OF q4] obtain s'' where
    b5: "task_receiver_body p e' (s', 4) = Break (s'', 5)"
    and l5: "ladder (trace s'') = ladder (trace s') @ [Printf (RxTimeout 5), Printf RxFail]"
    and f5: "\<not> g_flag_rx_ok s''"
    by blast
  have r5: "task_receiver_from p [e'] (s', 4) = Exited (task_receiver_exit s'')"
    by (simp add: task_receiver_from_def b5)
  have f: "\<not> g_flag_rx_ok (task_receiver_exit s'')"
    using f5 by (simp add: task_receiver_exit_def)
  from inc b4 q4 l4 b5 r5 l5 f show ?thesis by blast
qed

theorem rx_queue_reset_keeps_count_witness:
  "items (g_queue booted) = [] \<and>
   snd (flow_state (task_receiver_body ticks_100hz (rx_at 415)
      (booted, 3))) = 3 + 1 \<and>
   (\<exists>s'. task_receiver_body ticks_100hz (rx_at 415)
        (booted, 3) = Next (s', 4) \<and>
      items (g_queue s') = [] \<and>
      ladder (trace s') =
        ladder (trace booted) @ [Printf (RxTimeout 4), Printf RxResetQueue, EvQueueReset] \<and>
      (\<exists>s''. task_receiver_body ticks_100hz (rx_at 520)
           (s', 4) = Break (s'', 5) \<and>
         task_receiver_from ticks_100hz
           [rx_at 520]
           (s', 4) = Exited (task_receiver_exit s'') \<and>
         ladder (trace s'') = ladder (trace s') @ [Printf (RxTimeout 5), Printf RxFail] \<and>
         \<not> g_flag_rx_ok (task_receiver_exit s'')))"
proof -
  have h: "items (g_queue booted) = []"
    by (simp add: booted_def xQueueCreate_def)
  from h rx_queue_reset_keeps_count [OF h] show ?thesis
    by (rule conjI)
qed

section \<open>The generator\<close>

lemma gen_body_room:
  assumes "length (items (g_queue s)) < uxLength (g_queue s)"
  shows "\<exists>s'. task_generator_body p e (s, v) = (s', v + 1) \<and>
      g_queue s' = (g_queue s)\<lparr>items := items (g_queue s) @ [v]\<rparr> \<and>
      g_hb_gen s' = xTaskGetTickCount (gen_clk e) \<and> g_flag_gen_ok s' \<and>
      g_task_gen s' = g_task_gen s \<and>
      sends (trace s') = sends (trace s) @ [Printf (GenEnqueued v)]"
  using assms by (simp add: task_generator_body_def xQueueSend_def Let_def)

lemma gen_body_full:
  assumes "\<not> length (items (g_queue s)) < uxLength (g_queue s)"
  shows "\<exists>s'. task_generator_body p e (s, v) = (s', v + 1) \<and>
      g_queue s' = g_queue s \<and>
      g_hb_gen s' = g_hb_gen s \<and> g_flag_gen_ok s' = g_flag_gen_ok s \<and>
      g_task_gen s' = g_task_gen s \<and>
      sends (trace s') = sends (trace s) @ [Printf (GenDropped v)]"
  using assms by (simp add: task_generator_body_def xQueueSend_def Let_def)

lemma gen_loop_append:
  "task_generator_loop p (es @ fs) st = task_generator_loop p fs (task_generator_loop p es st)"
  by (induction es arbitrary: st) simp_all

lemma map_upt_shift:
  "map (\<lambda>i. f (v + of_nat i)) [0..<length (e # es)] =
     f v # map (\<lambda>i. f (v + 1 + of_nat i)) [0..<length es]"
  for f :: "cint \<Rightarrow> 'b"
  by (simp add: upt_conv_Cons map_Suc_upt [symmetric] add.assoc del: upt_Suc)

text \<open>Cycles that find room: every value is enqueued, the heartbeat is the last cycle's.\<close>

lemma gen_loop_room:
  assumes "length (items (g_queue s)) + length es \<le> uxLength (g_queue s)"
  shows "\<exists>s'. task_generator_loop p es (s, v) = (s', v + of_nat (length es)) \<and>
      g_queue s' =
        (g_queue s)\<lparr>items := items (g_queue s) @ map (\<lambda>i. v + of_nat i) [0..<length es]\<rparr> \<and>
      g_hb_gen s' = (if es = [] then g_hb_gen s else xTaskGetTickCount (gen_clk (last es))) \<and>
      g_task_gen s' = g_task_gen s \<and>
      sends (trace s') =
        sends (trace s) @ map (\<lambda>i. Printf (GenEnqueued (v + of_nat i))) [0..<length es]"
  using assms
proof (induction es arbitrary: s v)
  case Nil
  then show ?case by simp
next
  case (Cons e es)
  from Cons.prems have room: "length (items (g_queue s)) < uxLength (g_queue s)"
    by simp
  from gen_body_room [OF room, of p e v] obtain s1 where
    b: "task_generator_body p e (s, v) = (s1, v + 1)"
    and q: "g_queue s1 = (g_queue s)\<lparr>items := items (g_queue s) @ [v]\<rparr>"
    and h: "g_hb_gen s1 = xTaskGetTickCount (gen_clk e)"
    and o: "g_task_gen s1 = g_task_gen s"
    and t: "sends (trace s1) = sends (trace s) @ [Printf (GenEnqueued v)]"
    by blast
  from Cons.prems q have "length (items (g_queue s1)) + length es \<le> uxLength (g_queue s1)"
    by simp
  from Cons.IH [OF this, of "v + 1"] obtain s' where
    l: "task_generator_loop p es (s1, v + 1) = (s', v + 1 + of_nat (length es))"
    and q': "g_queue s' =
      (g_queue s1)\<lparr>items := items (g_queue s1) @ map (\<lambda>i. v + 1 + of_nat i) [0..<length es]\<rparr>"
    and h': "g_hb_gen s' =
      (if es = [] then g_hb_gen s1 else xTaskGetTickCount (gen_clk (last es)))"
    and o': "g_task_gen s' = g_task_gen s1"
    and t': "sends (trace s') =
      sends (trace s1) @ map (\<lambda>i. Printf (GenEnqueued (v + 1 + of_nat i))) [0..<length es]"
    by blast
  have "task_generator_loop p (e # es) (s, v) = (s', v + of_nat (length (e # es)))"
    using b l by (simp add: add.assoc)
  moreover have "g_queue s' =
      (g_queue s)\<lparr>items := items (g_queue s) @ map (\<lambda>i. v + of_nat i) [0..<length (e # es)]\<rparr>"
    using q q' map_upt_shift [of "\<lambda>x. x" v e es] by simp
  moreover have "g_hb_gen s' = xTaskGetTickCount (gen_clk (last (e # es)))"
    using h h' by simp
  moreover have "sends (trace s') =
      sends (trace s) @ map (\<lambda>i. Printf (GenEnqueued (v + of_nat i))) [0..<length (e # es)]"
    using t t' map_upt_shift [of "\<lambda>x. Printf (GenEnqueued x)" v e es] by simp
  ultimately show ?case using o o' by simp
qed

text \<open>Cycles on a full queue: every value is dropped, queue and heartbeat stay.\<close>

lemma gen_loop_full:
  assumes "\<not> length (items (g_queue s)) < uxLength (g_queue s)"
  shows "\<exists>s'. task_generator_loop p es (s, v) = (s', v + of_nat (length es)) \<and>
      g_queue s' = g_queue s \<and>
      g_hb_gen s' = g_hb_gen s \<and> g_flag_gen_ok s' = g_flag_gen_ok s \<and>
      g_task_gen s' = g_task_gen s \<and>
      sends (trace s') =
        sends (trace s) @ map (\<lambda>i. Printf (GenDropped (v + of_nat i))) [0..<length es]"
  using assms
proof (induction es arbitrary: s v)
  case Nil
  then show ?case by simp
next
  case (Cons e es)
  from gen_body_full [OF Cons.prems, of p e v] obtain s1 where
    b: "task_generator_body p e (s, v) = (s1, v + 1)"
    and q: "g_queue s1 = g_queue s"
    and o: "g_hb_gen s1 = g_hb_gen s" "g_flag_gen_ok s1 = g_flag_gen_ok s"
      "g_task_gen s1 = g_task_gen s"
    and t: "sends (trace s1) = sends (trace s) @ [Printf (GenDropped v)]"
    by blast
  from Cons.prems q have "\<not> length (items (g_queue s1)) < uxLength (g_queue s1)"
    by simp
  from Cons.IH [OF this, of "v + 1"] obtain s' where
    l: "task_generator_loop p es (s1, v + 1) = (s', v + 1 + of_nat (length es))"
    and q': "g_queue s' = g_queue s1"
    and o': "g_hb_gen s' = g_hb_gen s1" "g_flag_gen_ok s' = g_flag_gen_ok s1"
      "g_task_gen s' = g_task_gen s1"
    and t': "sends (trace s') =
      sends (trace s1) @ map (\<lambda>i. Printf (GenDropped (v + 1 + of_nat i))) [0..<length es]"
    by blast
  have "task_generator_loop p (e # es) (s, v) = (s', v + of_nat (length (e # es)))"
    using b l by (simp add: add.assoc)
  moreover have "sends (trace s') =
      sends (trace s) @ map (\<lambda>i. Printf (GenDropped (v + of_nat i))) [0..<length (e # es)]"
    using t t' map_upt_shift [of "\<lambda>x. Printf (GenDropped x)" v e es] by simp
  ultimately show ?case using q q' o o' by simp
qed

lemma upt_10: "[0..<10] = [0, 1, 2, 3, 4, 5, 6, 7, 8, 9]"
  by (simp add: upt_rec)

text \<open>
  C8. A generator started on the empty queue of \<^verbatim>\<open>QUEUE_LEN\<close> = 10 slots, with no
  receive in between: after ten cycles the queue holds 0 to 9. The eleventh cycle finds
  the queue full: the queue still holds 0 to 9, the value 10 is reported as dropped, and
  the counter is 11. The twelfth cycle attempts (and drops) the value 11. The sends in
  the trace are the ten successes and the two drops, in this order.
\<close>

theorem gen_fills_queue_then_drops:
  assumes "length es = 10"
  shows "items (g_queue (fst (task_generator p es (s\<lparr>g_queue := xQueueCreate QUEUE_LEN\<rparr>)))) =
           [0, 1, 2, 3, 4, 5, 6, 7, 8, 9] \<and>
         items (g_queue (fst (task_generator p (es @ [e10])
                                (s\<lparr>g_queue := xQueueCreate QUEUE_LEN\<rparr>)))) =
           [0, 1, 2, 3, 4, 5, 6, 7, 8, 9] \<and>
         snd (task_generator p (es @ [e10]) (s\<lparr>g_queue := xQueueCreate QUEUE_LEN\<rparr>)) = 11 \<and>
         sends (trace (fst (task_generator p (es @ [e10, e11])
                              (s\<lparr>g_queue := xQueueCreate QUEUE_LEN\<rparr>)))) =
           sends (trace s) @
           [Printf (GenEnqueued 0), Printf (GenEnqueued 1), Printf (GenEnqueued 2),
            Printf (GenEnqueued 3), Printf (GenEnqueued 4), Printf (GenEnqueued 5),
            Printf (GenEnqueued 6), Printf (GenEnqueued 7), Printf (GenEnqueued 8),
            Printf (GenEnqueued 9), Printf (GenDropped 10), Printf (GenDropped 11)]"
proof -
  let ?s0 = "emit (EvWdtAdd GenTask) (s\<lparr>g_queue := xQueueCreate QUEUE_LEN\<rparr>)"
  have "length (items (g_queue ?s0)) + length es \<le> uxLength (g_queue ?s0)"
    using assms by (simp add: xQueueCreate_def QUEUE_LEN_def)
  from gen_loop_room [OF this, of p 0] obtain s10 where
    l10: "task_generator_loop p es (?s0, 0) = (s10, 10)"
    and q10: "g_queue s10 = \<lparr>uxLength = 10, items = [0, 1, 2, 3, 4, 5, 6, 7, 8, 9]\<rparr>"
    and t10: "sends (trace s10) = sends (trace s) @
           [Printf (GenEnqueued 0), Printf (GenEnqueued 1), Printf (GenEnqueued 2),
            Printf (GenEnqueued 3), Printf (GenEnqueued 4), Printf (GenEnqueued 5),
            Printf (GenEnqueued 6), Printf (GenEnqueued 7), Printf (GenEnqueued 8),
            Printf (GenEnqueued 9)]"
    using assms by (auto simp add: xQueueCreate_def QUEUE_LEN_def upt_10)
  have full10: "\<not> length (items (g_queue s10)) < uxLength (g_queue s10)"
    by (simp add: q10)
  from gen_body_full [OF full10, of p e10 10] obtain s11 where
    b11: "task_generator_body p e10 (s10, 10) = (s11, 11)"
    and q11: "g_queue s11 = g_queue s10"
    and t11: "sends (trace s11) = sends (trace s10) @ [Printf (GenDropped 10)]"
    by auto
  have full11: "\<not> length (items (g_queue s11)) < uxLength (g_queue s11)"
    by (simp add: q11 q10)
  from gen_body_full [OF full11, of p e11 11] obtain s12 where
    b12: "task_generator_body p e11 (s11, 11) = (s12, 12)"
    and t12: "sends (trace s12) = sends (trace s11) @ [Printf (GenDropped 11)]"
    by auto
  have r10: "task_generator p es (s\<lparr>g_queue := xQueueCreate QUEUE_LEN\<rparr>) = (s10, 10)"
    by (simp add: task_generator_def l10)
  have r11: "task_generator p (es @ [e10]) (s\<lparr>g_queue := xQueueCreate QUEUE_LEN\<rparr>) = (s11, 11)"
    by (simp add: task_generator_def gen_loop_append l10 b11)
  have r12:
    "task_generator p (es @ [e10, e11]) (s\<lparr>g_queue := xQueueCreate QUEUE_LEN\<rparr>) = (s12, 12)"
    by (simp add: task_generator_def gen_loop_append l10 b11 b12)
  show ?thesis
    by (simp add: r10 r11 r12 q10 q11 t10 t11 t12)
qed

theorem gen_fills_queue_then_drops_witness:
  "length (map gen_at [0, 15, 30, 45, 60, 75, 90, 105, 120, 135]) = 10 \<and>
   (items (g_queue (fst (task_generator ticks_100hz
        (map gen_at [0, 15, 30, 45, 60, 75, 90, 105, 120, 135])
        (booted\<lparr>g_queue := xQueueCreate QUEUE_LEN\<rparr>)))) =
      [0, 1, 2, 3, 4, 5, 6, 7, 8, 9] \<and>
    items (g_queue (fst (task_generator ticks_100hz
        (map gen_at [0, 15, 30, 45, 60, 75, 90, 105, 120, 135] @ [gen_at 150])
        (booted\<lparr>g_queue := xQueueCreate QUEUE_LEN\<rparr>)))) =
      [0, 1, 2, 3, 4, 5, 6, 7, 8, 9] \<and>
    snd (task_generator ticks_100hz
        (map gen_at [0, 15, 30, 45, 60, 75, 90, 105, 120, 135] @ [gen_at 150])
        (booted\<lparr>g_queue := xQueueCreate QUEUE_LEN\<rparr>)) = 11 \<and>
    sends (trace (fst (task_generator ticks_100hz
        (map gen_at [0, 15, 30, 45, 60, 75, 90, 105, 120, 135] @ [gen_at 150, gen_at 165])
        (booted\<lparr>g_queue := xQueueCreate QUEUE_LEN\<rparr>)))) =
      sends (trace booted) @
      [Printf (GenEnqueued 0), Printf (GenEnqueued 1), Printf (GenEnqueued 2),
       Printf (GenEnqueued 3), Printf (GenEnqueued 4), Printf (GenEnqueued 5),
       Printf (GenEnqueued 6), Printf (GenEnqueued 7), Printf (GenEnqueued 8),
       Printf (GenEnqueued 9), Printf (GenDropped 10), Printf (GenDropped 11)])"
proof -
  have h: "length (map gen_at [0, 15, 30, 45, 60, 75, 90, 105, 120, 135]) = 10"
    by simp
  from h gen_fills_queue_then_drops [OF h] show ?thesis
    by (rule conjI)
qed

section \<open>The supervisor\<close>

lemma sup_check_gen_other_fields [simp]:
  "g_queue (sup_check_gen p e now s) = g_queue s"
  "g_task_rx (sup_check_gen p e now s) = g_task_rx s"
  "g_hb_rx (sup_check_gen p e now s) = g_hb_rx s"
  "g_flag_rx_ok (sup_check_gen p e now s) = g_flag_rx_ok s"
  by (simp_all add: sup_check_gen_def Let_def split: option.splits)

lemma sup_check_gen_stale:
  assumes "p (3 * SUP_PERIOD_MS) < now - g_hb_gen s"
  shows "sup_check_gen p e now s =
     s\<lparr>g_task_gen := sup_gen_created e,
       g_hb_gen := xTaskGetTickCount (sup_clk_gen e),
       g_flag_gen_ok := False,
       trace := trace s @ [Printf SupGenInactive] @
                (case g_task_gen s of Some h \<Rightarrow> [EvTaskDelete h] | None \<Rightarrow> []) @
                [EvTaskCreate GenTask]\<rparr>"
  using assms
  by (simp add: sup_check_gen_def Let_def emit_def xTaskCreatePinnedToCore_def
      split: option.splits)

lemma sup_check_rx_restart_iff:
  "is_Restarted (sup_check_rx p e now (s, r)) =
     ((g_task_rx s = None \<or> p (5 * SUP_PERIOD_MS) < now - g_hb_rx s) \<and>
      3 \<le>s r + 1 \<and> sup_free_heap_esc e < 16 * 1024)"
  by (simp add: sup_check_rx_def Let_def)

lemma sup_check_rx_gen_fields:
  "g_task_gen (fst (outcome_state (sup_check_rx p e now (s, r)))) = g_task_gen s"
  "g_hb_gen (fst (outcome_state (sup_check_rx p e now (s, r)))) = g_hb_gen s"
  "g_flag_gen_ok (fst (outcome_state (sup_check_rx p e now (s, r)))) = g_flag_gen_ok s"
  "\<exists>rest. trace (fst (outcome_state (sup_check_rx p e now (s, r)))) = trace s @ rest"
  by (simp_all add: sup_check_rx_def Let_def split: option.splits)

lemma sup_heap_restart_iff:
  "is_Restarted (sup_heap_telemetry e st) = (sup_min_heap e < 8 * 1024)"
  by (cases st) (simp add: sup_heap_telemetry_def Let_def)

lemma sup_heap_gen_fields:
  "g_task_gen (fst (outcome_state (sup_heap_telemetry e (s, r)))) = g_task_gen s"
  "g_hb_gen (fst (outcome_state (sup_heap_telemetry e (s, r)))) = g_hb_gen s"
  "g_flag_gen_ok (fst (outcome_state (sup_heap_telemetry e (s, r)))) = g_flag_gen_ok s"
  "\<exists>rest. trace (fst (outcome_state (sup_heap_telemetry e (s, r)))) = trace s @ rest"
  by (simp_all add: sup_heap_telemetry_def Let_def)

text \<open>With no handle the receiver is created whatever its heartbeat says.\<close>

lemma sup_check_rx_absent:
  assumes "g_task_rx s = None"
  shows "\<exists>rest. trace (fst (outcome_state (sup_check_rx p e now (s, r)))) =
           trace s @ [Printf SupRxInactive, EvTaskCreate RxTask] @ rest \<and>
         g_task_rx (fst (outcome_state (sup_check_rx p e now (s, r)))) = sup_rx_created e \<and>
         snd (outcome_state (sup_check_rx p e now (s, r))) = r + 1"
  using assms
  by (simp add: sup_check_rx_def Let_def xTaskCreatePinnedToCore_def split: option.splits)

text \<open>The body with its first three statements (lines 182 to 191) put together.\<close>

lemma sup_body_unfold:
  "task_supervisor_body p e (s, r) =
     (let now = xTaskGetTickCount (sup_clk_now e);
          s2 = emit (Printf (SupStatus (g_flag_gen_ok s) (g_hb_gen s)
                                       (g_flag_rx_ok s) (g_hb_rx s)))
                 ((emit (EvDelay SupTask (p SUP_PERIOD_MS)) s)\<lparr>g_hb_sup := now\<rparr>)
      in case sup_check_rx p e now (sup_check_gen p e now s2, r) of
           Restarted st' \<Rightarrow> Restarted st'
         | Proceed st' \<Rightarrow> sup_heap_telemetry e st')"
  by (simp add: task_supervisor_body_def Let_def)

text \<open>When a tick ends in \<^verbatim>\<open>esp_restart()\<close>: by one of the two paths, and only so.\<close>

lemma sup_body_restart_iff:
  "is_Restarted (task_supervisor_body p e (s, r)) =
     (((g_task_rx s = None \<or>
        p (5 * SUP_PERIOD_MS) < xTaskGetTickCount (sup_clk_now e) - g_hb_rx s) \<and>
       3 \<le>s r + 1 \<and> sup_free_heap_esc e < 16 * 1024) \<or>
      sup_min_heap e < 8 * 1024)"
proof -
  let ?now = "xTaskGetTickCount (sup_clk_now e)"
  let ?s2 = "emit (Printf (SupStatus (g_flag_gen_ok s) (g_hb_gen s) (g_flag_rx_ok s) (g_hb_rx s)))
                 ((emit (EvDelay SupTask (p SUP_PERIOD_MS)) s)\<lparr>g_hb_sup := ?now\<rparr>)"
  let ?s3 = "sup_check_gen p e ?now ?s2"
  have rx: "is_Restarted (sup_check_rx p e ?now (?s3, r)) =
     ((g_task_rx s = None \<or> p (5 * SUP_PERIOD_MS) < ?now - g_hb_rx s) \<and>
      3 \<le>s r + 1 \<and> sup_free_heap_esc e < 16 * 1024)"
    by (simp add: sup_check_rx_restart_iff)
  have "is_Restarted (task_supervisor_body p e (s, r)) =
      (is_Restarted (sup_check_rx p e ?now (?s3, r)) \<or> sup_min_heap e < 8 * 1024)"
    by (cases "sup_check_rx p e ?now (?s3, r)")
      (simp_all add: sup_body_unfold Let_def sup_heap_restart_iff)
  then show ?thesis
    by (simp only: rx)
qed

lemma tick_age:
  assumes "tg \<le> t"
  shows "unat (xTaskGetTickCount t - xTaskGetTickCount tg) \<le> t - tg"
proof -
  have "xTaskGetTickCount t - xTaskGetTickCount tg = (of_nat (t - tg) :: tick)"
    using assms by (simp add: xTaskGetTickCount_def)
  then show ?thesis
    by (simp add: unat_of_nat)
qed

text \<open>
  C2, as the code has it. The restart on memory exhaustion sits inside the branch that
  recreates the receiver: it is taken exactly when the receiver is recreated at this tick
  (handle \<^verbatim>\<open>NULL\<close>, or heartbeat older than 5 supervisor periods), the restart count
  including this recreation is at least 3, and the free heap read there is below 16 KiB.
  A tick as a whole ends in a device restart exactly on this path or on the path of the
  minimum-ever free heap below 8 KiB; so with a free heap of 16 KiB or more, or with no
  recreation at the tick, the first path triggers nothing.
\<close>

theorem sup_exhaustion_path:
  "is_Restarted (sup_check_rx p e now (s, rx_restarts)) =
     ((g_task_rx s = None \<or> p (5 * SUP_PERIOD_MS) < now - g_hb_rx s) \<and>
      3 \<le>s rx_restarts + 1 \<and> sup_free_heap_esc e < 16 * 1024) \<and>
   is_Restarted (task_supervisor_body p e (s, rx_restarts)) =
     (((g_task_rx s = None \<or>
        p (5 * SUP_PERIOD_MS) < xTaskGetTickCount (sup_clk_now e) - g_hb_rx s) \<and>
       3 \<le>s rx_restarts + 1 \<and> sup_free_heap_esc e < 16 * 1024) \<or>
      sup_min_heap e < 8 * 1024)"
  by (simp only: sup_check_rx_restart_iff sup_body_restart_iff simp_thms)

text \<open>
  C2 as stated fails: at clock 1000 the restart count is 3 and the free heap is 10000
  bytes, below 16 KiB, but the receiver is present with a heartbeat 10 ticks old (and the
  minimum-ever free heap is 9000 bytes, above the floor): the tick does not restart the
  device.
\<close>

theorem sup_exhaustion_needs_recreation:
  "3 \<le>s (3 :: cint) \<and>
   sup_free_heap (sup_at 1000 10000 9000) < 16 * 1024 \<and>
   sup_free_heap_esc (sup_at 1000 10000 9000) < 16 * 1024 \<and>
   \<not> is_Restarted (task_supervisor_body ticks_100hz (sup_at 1000 10000 9000)
                     (booted\<lparr>g_hb_gen := 990, g_hb_rx := 990\<rparr>, 3))"
  by (simp add: sup_body_restart_iff sup_at_def booted_def ticks_100hz_def
      xTaskGetTickCount_def SUP_PERIOD_MS_def)

text \<open>
  C6. At a tick at which more than 3 supervisor periods of ticks lie between the tick
  count read at the start of the tick and the generator's heartbeat, and whatever the
  rest of the tick does: the old generator, if there is a handle, is deleted, and a
  generator is created, in this order; afterwards \<^verbatim>\<open>g_task_gen\<close> is what the creation
  stored (the new handle, \<^verbatim>\<open>NULL\<close> if the host could not create the task), the health
  flag is false, and the heartbeat is the tick count read right after the creation. With
  a monotonic clock that reading is not before the start of the tick, so at every later
  clock \<open>t\<close> the age of the heartbeat is at most the ticks since the start of the tick.
\<close>

theorem sup_recreates_stale_generator:
  assumes stale: "p (3 * SUP_PERIOD_MS) < xTaskGetTickCount (sup_clk_now e) - g_hb_gen s"
    and mono: "sup_clk_now e \<le> sup_clk_gen e"
    and later: "sup_clk_gen e \<le> t"
  shows "g_task_gen (fst (outcome_state (task_supervisor_body p e (s, r)))) = sup_gen_created e \<and>
     g_hb_gen (fst (outcome_state (task_supervisor_body p e (s, r)))) =
       xTaskGetTickCount (sup_clk_gen e) \<and>
     unat (xTaskGetTickCount t - g_hb_gen (fst (outcome_state (task_supervisor_body p e (s, r)))))
       \<le> t - sup_clk_now e \<and>
     g_flag_gen_ok (fst (outcome_state (task_supervisor_body p e (s, r)))) = False \<and>
     (\<exists>rest. trace (fst (outcome_state (task_supervisor_body p e (s, r)))) =
        trace s @
        [EvDelay SupTask (p SUP_PERIOD_MS),
         Printf (SupStatus (g_flag_gen_ok s) (g_hb_gen s) (g_flag_rx_ok s) (g_hb_rx s)),
         Printf SupGenInactive] @
        (case g_task_gen s of Some h \<Rightarrow> [EvTaskDelete h] | None \<Rightarrow> []) @
        [EvTaskCreate GenTask] @ rest)"
proof -
  let ?now = "xTaskGetTickCount (sup_clk_now e)"
  let ?s2 = "emit (Printf (SupStatus (g_flag_gen_ok s) (g_hb_gen s) (g_flag_rx_ok s) (g_hb_rx s)))
                 ((emit (EvDelay SupTask (p SUP_PERIOD_MS)) s)\<lparr>g_hb_sup := ?now\<rparr>)"
  let ?s3 = "sup_check_gen p e ?now ?s2"
  let ?r = "task_supervisor_body p e (s, r)"
  have st2: "p (3 * SUP_PERIOD_MS) < ?now - g_hb_gen ?s2"
    using stale by simp
  have s3: "?s3 = ?s2\<lparr>g_task_gen := sup_gen_created e,
       g_hb_gen := xTaskGetTickCount (sup_clk_gen e),
       g_flag_gen_ok := False,
       trace := trace ?s2 @ [Printf SupGenInactive] @
                (case g_task_gen ?s2 of Some h \<Rightarrow> [EvTaskDelete h] | None \<Rightarrow> []) @
                [EvTaskCreate GenTask]\<rparr>"
    by (rule sup_check_gen_stale) (rule st2)
  have f3: "g_task_gen ?s3 = sup_gen_created e"
    "g_hb_gen ?s3 = xTaskGetTickCount (sup_clk_gen e)"
    "g_flag_gen_ok ?s3 = False"
    "trace ?s3 = trace s @
        [EvDelay SupTask (p SUP_PERIOD_MS),
         Printf (SupStatus (g_flag_gen_ok s) (g_hb_gen s) (g_flag_rx_ok s) (g_hb_rx s)),
         Printf SupGenInactive] @
        (case g_task_gen s of Some h \<Rightarrow> [EvTaskDelete h] | None \<Rightarrow> []) @
        [EvTaskCreate GenTask]"
    by (simp_all add: s3)
  obtain s4 r4 where o4: "outcome_state (sup_check_rx p e ?now (?s3, r)) = (s4, r4)"
    by (cases "outcome_state (sup_check_rx p e ?now (?s3, r))")
  from sup_check_rx_gen_fields [of p e ?now ?s3 r] o4 obtain rest4 where
    f4: "g_task_gen s4 = g_task_gen ?s3" "g_hb_gen s4 = g_hb_gen ?s3"
      "g_flag_gen_ok s4 = g_flag_gen_ok ?s3" "trace s4 = trace ?s3 @ rest4"
    by auto
  have "\<exists>rest5. g_task_gen (fst (outcome_state ?r)) = g_task_gen s4 \<and>
          g_hb_gen (fst (outcome_state ?r)) = g_hb_gen s4 \<and>
          g_flag_gen_ok (fst (outcome_state ?r)) = g_flag_gen_ok s4 \<and>
          trace (fst (outcome_state ?r)) = trace s4 @ rest5"
  proof (cases "sup_check_rx p e ?now (?s3, r)")
    case (Restarted st')
    then have "?r = Restarted (s4, r4)"
      using o4 by (simp add: sup_body_unfold Let_def)
    then show ?thesis by simp
  next
    case (Proceed st')
    then have "?r = sup_heap_telemetry e (s4, r4)"
      using o4 by (simp add: sup_body_unfold Let_def)
    with sup_heap_gen_fields [of e s4 r4] show ?thesis by auto
  qed
  then obtain rest5 where
    f5: "g_task_gen (fst (outcome_state ?r)) = g_task_gen s4"
      "g_hb_gen (fst (outcome_state ?r)) = g_hb_gen s4"
      "g_flag_gen_ok (fst (outcome_state ?r)) = g_flag_gen_ok s4"
      "trace (fst (outcome_state ?r)) = trace s4 @ rest5"
    by blast
  have hb: "g_hb_gen (fst (outcome_state ?r)) = xTaskGetTickCount (sup_clk_gen e)"
    by (simp only: f5 f4 f3)
  have age: "unat (xTaskGetTickCount t - g_hb_gen (fst (outcome_state ?r))) \<le> t - sup_clk_now e"
    using tick_age [OF later] mono by (simp add: hb)
  have tr: "trace (fst (outcome_state ?r)) = trace s @
        [EvDelay SupTask (p SUP_PERIOD_MS),
         Printf (SupStatus (g_flag_gen_ok s) (g_hb_gen s) (g_flag_rx_ok s) (g_hb_rx s)),
         Printf SupGenInactive] @
        (case g_task_gen s of Some h \<Rightarrow> [EvTaskDelete h] | None \<Rightarrow> []) @
        [EvTaskCreate GenTask] @ (rest4 @ rest5)"
    by (simp only: f5 f4 f3 append_assoc)
  have "g_task_gen (fst (outcome_state ?r)) = sup_gen_created e"
    by (simp only: f5 f4 f3)
  moreover have "g_flag_gen_ok (fst (outcome_state ?r)) = False"
    by (simp only: f5 f4 f3)
  ultimately show ?thesis
    using hb age tr by blast
qed

theorem sup_recreates_stale_generator_witness:
  "ticks_100hz (3 * SUP_PERIOD_MS) <
     xTaskGetTickCount (sup_clk_now (sup_at 600 150000 140000)) -
     g_hb_gen (booted\<lparr>g_hb_gen := 135, g_hb_rx := 590\<rparr>) \<and>
   sup_clk_now (sup_at 600 150000 140000) \<le> sup_clk_gen (sup_at 600 150000 140000) \<and>
   sup_clk_gen (sup_at 600 150000 140000) \<le> 750 \<and>
   g_task_gen (fst (outcome_state (task_supervisor_body ticks_100hz (sup_at 600 150000 140000)
      (booted\<lparr>g_hb_gen := 135, g_hb_rx := 590\<rparr>, 0)))) = Some 3 \<and>
   g_hb_gen (fst (outcome_state (task_supervisor_body ticks_100hz (sup_at 600 150000 140000)
      (booted\<lparr>g_hb_gen := 135, g_hb_rx := 590\<rparr>, 0)))) = 600 \<and>
   unat (xTaskGetTickCount 750 -
         g_hb_gen (fst (outcome_state (task_supervisor_body ticks_100hz
           (sup_at 600 150000 140000) (booted\<lparr>g_hb_gen := 135, g_hb_rx := 590\<rparr>, 0)))))
     \<le> 750 - 600 \<and>
   g_flag_gen_ok (fst (outcome_state (task_supervisor_body ticks_100hz
      (sup_at 600 150000 140000) (booted\<lparr>g_hb_gen := 135, g_hb_rx := 590\<rparr>, 0)))) = False \<and>
   (\<exists>rest. trace (fst (outcome_state (task_supervisor_body ticks_100hz
        (sup_at 600 150000 140000) (booted\<lparr>g_hb_gen := 135, g_hb_rx := 590\<rparr>, 0)))) =
      [EvDelay SupTask 150, Printf (SupStatus False 135 False 590), Printf SupGenInactive,
       EvTaskDelete 1, EvTaskCreate GenTask] @ rest)"
proof -
  have h1: "ticks_100hz (3 * SUP_PERIOD_MS) <
     xTaskGetTickCount (sup_clk_now (sup_at 600 150000 140000)) -
     g_hb_gen (booted\<lparr>g_hb_gen := 135, g_hb_rx := 590\<rparr>)"
    by (simp add: ticks_100hz_def SUP_PERIOD_MS_def xTaskGetTickCount_def sup_at_def)
  have h2: "sup_clk_now (sup_at 600 150000 140000) \<le> sup_clk_gen (sup_at 600 150000 140000)"
    by (simp add: sup_at_def)
  have h3: "sup_clk_gen (sup_at 600 150000 140000) \<le> 750"
    by (simp add: sup_at_def)
  from h1 h2 h3
    sup_recreates_stale_generator
      [where p = ticks_100hz and e = "sup_at 600 150000 140000"
         and s = "booted\<lparr>g_hb_gen := 135, g_hb_rx := 590\<rparr>" and t = 750 and r = 0,
       OF h1 h2 h3]
  show ?thesis
    by (simp add: sup_at_def booted_def ticks_100hz_def SUP_PERIOD_MS_def xTaskGetTickCount_def)
qed

text \<open>
  C7. A tick at which the minimum-ever free heap read is below 8 KiB ends in
  \<^verbatim>\<open>esp_restart()\<close>, whatever the state, the restart count and the other readings are:
  on line 237, unless the exhaustion path has restarted the device before.
\<close>

theorem sup_min_heap_floor_restarts:
  "sup_min_heap e < 8 * 1024 \<Longrightarrow> is_Restarted (task_supervisor_body p e (s, rx_restarts))"
  by (simp add: sup_body_restart_iff)

theorem sup_min_heap_floor_restarts_witness:
  "sup_min_heap (sup_at 600 150000 8191) < 8 * 1024 \<and>
   is_Restarted (task_supervisor_body ticks_100hz (sup_at 600 150000 8191)
                   (booted\<lparr>g_hb_gen := 590, g_hb_rx := 590\<rparr>, 0))"
proof -
  have h: "sup_min_heap (sup_at 600 150000 8191) < 8 * 1024"
    by (simp add: sup_at_def)
  from h sup_min_heap_floor_restarts [OF h] show ?thesis
    by (rule conjI)
qed

section \<open>What the supervisor sees of the other two tasks\<close>

text \<open>
  C3. The claim's first half does not hold of the code: a receiver that leaves its loop
  calls \<^verbatim>\<open>vTaskDelete(NULL)\<close> and nothing clears \<^verbatim>\<open>g_task_rx\<close> (only the
  supervisor does, on line 211, after its own \<^verbatim>\<open>vTaskDelete\<close>). Here the receiver
  created at boot under handle 2 meets five timeouts and exits at clock 520 with the
  heartbeat still 0. The handle is still 2, so the supervisor's checks at clocks 600 and
  750 find neither \<^verbatim>\<open>g_task_rx == NULL\<close> nor a stale heartbeat and create nothing;
  the check at clock 900 finds the heartbeat stale, deletes the task of handle 2 once
  more and only then creates the new receiver.
\<close>

theorem rx_self_exit_leaves_handle:
  "\<exists>s5. task_receiver ticks_100hz [rx_at 100, rx_at 205, rx_at 310, rx_at 415, rx_at 520] booted
          = Exited s5 \<and>
        g_task_rx s5 = Some 2 \<and> g_hb_rx s5 = 0 \<and>
        sup_check_rx ticks_100hz (sup_at 600 150000 140000) (xTaskGetTickCount 600) (s5, 0)
          = Proceed (s5, 0) \<and>
        sup_check_rx ticks_100hz (sup_at 750 150000 140000) (xTaskGetTickCount 750) (s5, 0)
          = Proceed (s5, 0) \<and>
        sup_check_rx ticks_100hz (sup_at 900 150000 140000) (xTaskGetTickCount 900) (s5, 0)
          = Proceed (s5\<lparr>g_task_rx := Some 4, g_hb_rx := 900,
                         trace := trace s5 @
                           [Printf SupRxInactive, EvTaskDelete 2, EvTaskCreate RxTask]\<rparr>, 1)"
  by (simp add: task_receiver_def task_receiver_from_def task_receiver_body_def
      task_receiver_exit_def rx_telemetry_def xQueueReceive_def xQueueReset_def
      xQueueCreate_def rx_at_def booted_def config_defs emit_def Let_def word_sle_eq
      sup_check_rx_def sup_at_def ticks_100hz_def xTaskGetTickCount_def
      xTaskCreatePinnedToCore_def)

lemma upt_41_split:
  "map gen_at (map ((*) 15) [0..<41]) =
     map gen_at (map ((*) 15) [0..<10]) @ map gen_at (map ((*) 15) [10..<41])"
proof -
  have "[0..<41] = [0..<10] @ [10..<41::nat]"
    using upt_add_eq_append [of 0 10 31] by simp
  then show ?thesis by simp
qed

lemma gen_body_hb:
  "g_hb_gen (fst (task_generator_body p e (s, v))) =
     (if length (items (g_queue s)) < uxLength (g_queue s)
      then xTaskGetTickCount (gen_clk e) else g_hb_gen s)"
  by (simp add: task_generator_body_def xQueueSend_def Let_def)

text \<open>
  C4 as stated fails. The generator of \<open>producer_blocked_run\<close> has run 41 cycles, the
  last at clock 600; its sends have failed since the queue filled up, and its heartbeat
  is that of the tenth cycle, at clock 135. The supervisor's check at clock 600 finds
  465 ticks, more than the 450 of three periods: it deletes the running generator
  (handle 1) and creates another.
\<close>

theorem gen_running_yet_recreated:
  "snd producer_blocked_run = 41 \<and>
   gen_clk (last (map gen_at (map ((*) 15) [0..<41]))) = 600 \<and>
   g_hb_gen (fst producer_blocked_run) = 135 \<and>
   sup_check_gen ticks_100hz (sup_at 600 150000 140000) (xTaskGetTickCount 600)
       (fst producer_blocked_run) =
     (fst producer_blocked_run)
       \<lparr>g_task_gen := Some 3, g_hb_gen := 600, g_flag_gen_ok := False,
        trace := trace (fst producer_blocked_run) @
                 [Printf SupGenInactive, EvTaskDelete 1, EvTaskCreate GenTask]\<rparr>"
proof -
  let ?s0 = "emit (EvWdtAdd GenTask) booted"
  let ?es = "map gen_at (map ((*) 15) [0..<10])"
  let ?fs = "map gen_at (map ((*) 15) [10..<41])"
  have "length (items (g_queue ?s0)) + length ?es \<le> uxLength (g_queue ?s0)"
    by (simp add: booted_def xQueueCreate_def QUEUE_LEN_def)
  from gen_loop_room [OF this, of ticks_100hz 0] obtain s10 where
    l10: "task_generator_loop ticks_100hz ?es (?s0, 0) = (s10, 10)"
    and q10: "g_queue s10 = \<lparr>uxLength = 10, items = [0, 1, 2, 3, 4, 5, 6, 7, 8, 9]\<rparr>"
    and h10: "g_hb_gen s10 = 135"
    and g10: "g_task_gen s10 = Some 1"
    by (auto simp add: booted_def xQueueCreate_def QUEUE_LEN_def upt_10 gen_at_def
        xTaskGetTickCount_def)
  have full: "\<not> length (items (g_queue s10)) < uxLength (g_queue s10)"
    by (simp add: q10)
  from gen_loop_full [OF full, of ticks_100hz ?fs 10] obtain s where
    l41: "task_generator_loop ticks_100hz ?fs (s10, 10) = (s, 41)"
    and h41: "g_hb_gen s = 135"
    and g41: "g_task_gen s = Some 1"
    by (auto simp add: h10 g10)
  have run: "producer_blocked_run = (s, 41)"
    by (simp only: producer_blocked_run_def task_generator_def upt_41_split gen_loop_append
        l10 l41)
  have lst: "gen_clk (last (map gen_at (map ((*) 15) [0..<41]))) = 600"
    by (simp add: last_map gen_at_def)
  have stale: "ticks_100hz (3 * SUP_PERIOD_MS) < xTaskGetTickCount 600 - g_hb_gen s"
    by (simp add: h41 ticks_100hz_def SUP_PERIOD_MS_def xTaskGetTickCount_def)
  have chk: "sup_check_gen ticks_100hz (sup_at 600 150000 140000) (xTaskGetTickCount 600) s =
         s\<lparr>g_task_gen := Some 3, g_hb_gen := 600, g_flag_gen_ok := False,
           trace := trace s @ [Printf SupGenInactive, EvTaskDelete 1, EvTaskCreate GenTask]\<rparr>"
    by (subst sup_check_gen_stale [where p = ticks_100hz and now = "xTaskGetTickCount 600"
          and s = s, OF stale]) (simp add: g41 sup_at_def xTaskGetTickCount_def)
  from lst h41 chk show ?thesis
    by (simp add: run)
qed

text \<open>
  C4, as the code has it. The generator writes its heartbeat only in a cycle whose send
  succeeds; a cycle that finds the queue full leaves the heartbeat as it was. The
  supervisor's check after a cycle therefore fires exactly when more than 3 supervisor
  periods of ticks lie between its tick count and the tick of that cycle if the send
  succeeded, or the heartbeat from before the cycle if it failed: it looks at the last
  successful send, not at whether the loop is running.
\<close>

theorem gen_staleness_follows_last_success:
  "g_hb_gen (fst (task_generator_body p e (s, v))) =
     (if length (items (g_queue s)) < uxLength (g_queue s)
      then xTaskGetTickCount (gen_clk e) else g_hb_gen s) \<and>
   sup_check_gen p e' now (fst (task_generator_body p e (s, v))) =
     (if p (3 * SUP_PERIOD_MS) <
           now - (if length (items (g_queue s)) < uxLength (g_queue s)
                  then xTaskGetTickCount (gen_clk e) else g_hb_gen s)
      then (fst (task_generator_body p e (s, v)))
             \<lparr>g_task_gen := sup_gen_created e',
              g_hb_gen := xTaskGetTickCount (sup_clk_gen e'),
              g_flag_gen_ok := False,
              trace := trace (fst (task_generator_body p e (s, v))) @
                       [Printf SupGenInactive] @
                       (case g_task_gen s of Some h \<Rightarrow> [EvTaskDelete h] | None \<Rightarrow> []) @
                       [EvTaskCreate GenTask]\<rparr>
      else fst (task_generator_body p e (s, v)))"
proof -
  let ?s1 = "fst (task_generator_body p e (s, v))"
  let ?hb = "if length (items (g_queue s)) < uxLength (g_queue s)
             then xTaskGetTickCount (gen_clk e) else g_hb_gen s"
  have hb: "g_hb_gen ?s1 = ?hb"
    by (rule gen_body_hb)
  have tg: "g_task_gen ?s1 = g_task_gen s"
    by (simp add: task_generator_body_def xQueueSend_def Let_def)
  show ?thesis
  proof (cases "p (3 * SUP_PERIOD_MS) < now - ?hb")
    case True
    then have "p (3 * SUP_PERIOD_MS) < now - g_hb_gen ?s1"
      by (simp only: hb simp_thms)
    from sup_check_gen_stale [where p = p and now = now and s = ?s1 and e = e', OF this]
    show ?thesis
      using True hb tg by simp
  next
    case False
    then have "\<not> p (3 * SUP_PERIOD_MS) < now - g_hb_gen ?s1"
      by (simp only: hb simp_thms)
    then have "sup_check_gen p e' now ?s1 = ?s1"
      by (simp add: sup_check_gen_def)
    then show ?thesis
      using False hb by simp
  qed
qed

end
